theory Spec2Isabelle
  imports Complex_Main
begin

section \<open>Python values and failures\<close>

text \<open>
  Python floats and torch float tensors are modelled as mathematical reals: every
  statement below is about the formulas the code evaluates, not about rounding.
  Python and torch integers are unbounded here (all values are angles, pixel
  coordinates and small counts).  An exception is a value \<open>Inl e\<close> of a sum type.
  Reading files, parsing their lines and the \<open>cv2\<close> drawing calls are not modelled.
\<close>

datatype py_error = IndexError | ValueError

text \<open>Python's \<open>int(f)\<close> on a float: truncation toward zero.\<close>

definition py_int :: "real \<Rightarrow> int" where
  "py_int r = (if 0 \<le> r then \<lfloor>r\<rfloor> else \<lceil>r\<rceil>)"

text \<open>\<open>math.radians\<close>.\<close>

definition radians :: "real \<Rightarrow> real" where
  "radians a = a * pi / 180"

text \<open>Collecting the results of a comprehension whose body may raise: the first failure wins.\<close>

fun collect :: "('e + 'a) list \<Rightarrow> 'e + 'a list" where
  "collect [] = Inr []"
| "collect (Inl e # rs) = Inl e"
| "collect (Inr v # rs) = (case collect rs of Inl e \<Rightarrow> Inl e | Inr vs \<Rightarrow> Inr (v # vs))"

section \<open>classify/val.py: \<open>CalculateTopk_and_GetWrongSample\<close>\<close>

text \<open>
  A two-dimensional integer tensor of shape \<open>(N, K)\<close> is a list of \<open>N\<close> rows.
  \<open>pred\<close> holds, per sample, the \<open>K\<close> highest-scoring angle indices; \<open>targets\<close>
  holds the ground-truth angles.

  Lines 60-61 (and 63-64 for the post-processed copy) overwrite row \<open>i\<close> by
  \<open>abs(row - target)\<close> and then by \<open>where(row <= 180, row, 360 - row)\<close>; both act
  elementwise, so one element is transformed by \<open>bias\<close>.
\<close>

definition bias :: "int \<Rightarrow> int \<Rightarrow> int" where
  "bias p target = (let d = \<bar>p - target\<bar> in if d \<le> 180 then d else 360 - d)"

definition bias_row :: "int list \<Rightarrow> int \<Rightarrow> int list" where
  "bias_row row target = map (\<lambda>p. bias p target) row"

text \<open>
  The state built by the loop over \<open>enumerate(targets)\<close> (lines 59-86): the tensor
  \<open>bias_topk\<close>, the list \<open>wrong_preds\<close>, the three bucket counters and \<open>bias_ori\<close>.
\<close>

record loop_state =
  bias_topk :: "int list list"
  bias_topk_post :: "int list list"
  wrong_preds :: "(int \<times> int) list"
  large_bias_count :: nat
  samll_bias_count :: nat
  correct_bias_count :: nat
  bias_ori :: "int list"

text \<open>
  One equation per shape of the three sequences that the loop walks in step.  Indexing
  row \<open>i\<close> of a tensor with fewer than \<open>i + 1\<close> rows raises \<open>IndexError\<close>, and so
  does \<open>bias_topk[i, 0]\<close> on a row of width 0.  Rows beyond \<open>len(targets)\<close> are left
  as they were.
\<close>

fun bias_loop :: "int \<Rightarrow> int list list \<Rightarrow> int list list \<Rightarrow> int list \<Rightarrow> py_error + loop_state" where
  "bias_loop threshold rows posts [] =
     Inr \<lparr>bias_topk = rows, bias_topk_post = posts, wrong_preds = [],
          large_bias_count = 0, samll_bias_count = 0, correct_bias_count = 0, bias_ori = []\<rparr>"
| "bias_loop threshold [] posts (target # ts) = Inl IndexError"
| "bias_loop threshold (row # rows) [] (target # ts) = Inl IndexError"
| "bias_loop threshold (row # rows) (post # posts) (target # ts) =
     (case bias_row row target of
        [] \<Rightarrow> Inl IndexError
      | b0 # bs \<Rightarrow>
         (case bias_loop threshold rows posts ts of
            Inl e \<Rightarrow> Inl e
          | Inr st \<Rightarrow>
             Inr \<lparr>bias_topk = (b0 # bs) # bias_topk st,
                  bias_topk_post = bias_row post target # bias_topk_post st,
                  wrong_preds = (if b0 > threshold then [(hd row, target)] else []) @ wrong_preds st,
                  large_bias_count = (if b0 \<ge> 170 then 1 else 0) + large_bias_count st,
                  samll_bias_count = (if b0 \<ge> 170 then 0 else if b0 \<le> 5 then 1 else 0) + samll_bias_count st,
                  correct_bias_count = (if b0 \<ge> 170 then 0 else if b0 \<le> 5 then 0 else 1) + correct_bias_count st,
                  bias_ori = b0 # bias_ori st\<rparr>))"

text \<open>Line 93 / line 100: \<open>torch.where(bias_topk <= threshold, 1, 0).float()\<close>.\<close>

definition correct_of :: "int \<Rightarrow> int list list \<Rightarrow> real list list" where
  "correct_of threshold b = map (map (\<lambda>v. if v \<le> threshold then 1 else 0)) b"

text \<open>
  Line 96 / line 101, per row: \<open>correct[:, 0]\<close> and \<open>correct.max(1).values\<close>.
  Column 0 of a tensor of width 0 does not exist.
\<close>

fun acc_row :: "real list \<Rightarrow> py_error + real \<times> real" where
  "acc_row [] = Inl IndexError"
| "acc_row (c # cs) = Inr (c, fold max cs c)"

text \<open>
  \<open>mean(0)\<close> of a column; the mean of no values is torch's \<open>nan\<close>, here \<open>None\<close>.
  The column holds only 0.0 and 1.0, so its float sum is exact for any batch that fits in
  memory, and the float quotient is the rounding of the quotient below.
\<close>

definition mean0 :: "real list \<Rightarrow> real option" where
  "mean0 col = (if col = [] then None else Some (sum_list col / real (length col)))"

definition accuracy :: "int \<Rightarrow> int list list \<Rightarrow> py_error + real option \<times> real option" where
  "accuracy threshold b =
     (case collect (map acc_row (correct_of threshold b)) of
        Inl e \<Rightarrow> Inl e
      | Inr acc \<Rightarrow> Inr (mean0 (map fst acc), mean0 (map snd acc)))"

record topk_result =
  top1 :: "real option"
  top5 :: "real option"
  res_wrong_preds :: "(int \<times> int) list"
  res_bias_topk :: "int list list"
  res_bias_ori :: "int list"
  topk_list :: "(real option \<times> real option) list"

text \<open>
  The function with \<open>post_process = False\<close> (its default, under which \<open>value\<close> and
  \<open>device\<close> are not read).  The sweep of lines 99-102 runs over \<open>range(threshold+1)\<close>,
  which is \<open>[0..threshold]\<close> and empty for a negative threshold.
\<close>

definition CalculateTopk_and_GetWrongSample ::
  "int list list \<Rightarrow> int list list \<Rightarrow> int list \<Rightarrow> int \<Rightarrow> py_error + topk_result" where
  "CalculateTopk_and_GetWrongSample pred pred_post targets threshold =
     (case bias_loop threshold pred pred_post targets of
        Inl e \<Rightarrow> Inl e
      | Inr st \<Rightarrow>
         (case accuracy threshold (bias_topk st) of
            Inl e \<Rightarrow> Inl e
          | Inr (t1, t5) \<Rightarrow>
             (case collect (map (\<lambda>i. accuracy i (bias_topk st)) [0..threshold]) of
                Inl e \<Rightarrow> Inl e
              | Inr sweep \<Rightarrow>
                 Inr \<lparr>top1 = t1, top5 = t5, res_wrong_preds = wrong_preds st,
                      res_bias_topk = bias_topk st, res_bias_ori = bias_ori st,
                      topk_list = sweep\<rparr>)))"

section \<open>The fractions the evaluator is meant to report\<close>

text \<open>
  Stated from the description of the metric, for comparison with the tensor code
  above: the share of samples whose rank-0 candidate, respectively at least one of whose
  candidates, has a bias of at most \<open>t\<close>.
\<close>

definition top1_fraction :: "int list list \<Rightarrow> int list \<Rightarrow> int \<Rightarrow> real" where
  "top1_fraction pred targets t =
     real (length (filter (\<lambda>i. bias (pred ! i ! 0) (targets ! i) \<le> t) [0..<length targets]))
       / real (length targets)"

definition topK_fraction :: "int list list \<Rightarrow> int list \<Rightarrow> int \<Rightarrow> real" where
  "topK_fraction pred targets t =
     real (length (filter (\<lambda>i. \<exists>k\<in>{0..<length (pred ! i)}. bias (pred ! i ! k) (targets ! i) \<le> t)
                     [0..<length targets]))
       / real (length targets)"

section \<open>classify/choosebox_and_draw.py\<close>

text \<open>
  One line \<open>angle x y w h\<close> of a label file, after \<open>float(int(.))\<close> on the first
  field and \<open>float(.)\<close> on the others; \<open>x y w h\<close> are fractions of the image size.
  \<open>img.shape\<close> is \<open>(height, width, channels)\<close>: \<open>shape0\<close> is \<open>img.shape[0]\<close> and
  \<open>shape1\<close> is \<open>img.shape[1]\<close>.
\<close>

record detection =
  det_angle :: int
  det_x :: real
  det_y :: real
  det_w :: real
  det_h :: real

record img_shape =
  shape0 :: int
  shape1 :: int

text \<open>\<open>create_rotated45_img\<close>, line 40: the side \<open>rw = rh\<close> of the rotated image.\<close>

definition rotated45_side :: "int \<Rightarrow> int \<Rightarrow> int" where
  "rotated45_side w h = py_int (real_of_int (w + h) * cos (radians 45))"

text \<open>\<open>rotate_point\<close>, lines 49-61.\<close>

definition rotate_point :: "real \<Rightarrow> real \<Rightarrow> int \<Rightarrow> int \<Rightarrow> real \<Rightarrow> int \<times> int" where
  "rotate_point x y w h angle =
     (let angle_rad = radians angle;
          rw = py_int (real_of_int (w + h) * cos (radians angle));
          rh = rw;
          x1 = x - real_of_int w / 2;
          y1 = y - real_of_int h / 2;
          x_rotated = x1 * cos angle_rad + y1 * sin angle_rad;
          y_rotated = - x1 * sin angle_rad + y1 * cos angle_rad;
          x_rotated' = x_rotated + real_of_int w / 2 + real_of_int (rw - w) / 2;
          y_rotated' = y_rotated + real_of_int h / 2 + real_of_int (rh - h) / 2
      in (py_int x_rotated', py_int y_rotated'))"

text \<open>\<open>min\<close> of a list raises \<open>ValueError\<close> on the empty list; so does \<open>list.index\<close>
  when the value is absent, and it returns the first position otherwise.\<close>

definition py_min :: "real list \<Rightarrow> py_error + real" where
  "py_min xs = (case xs of [] \<Rightarrow> Inl ValueError | a # as \<Rightarrow> Inr (fold min as a))"

fun py_index :: "real list \<Rightarrow> real \<Rightarrow> py_error + nat" where
  "py_index [] v = Inl ValueError"
| "py_index (a # as) v =
     (if a = v then Inr 0
      else (case py_index as v of Inl e \<Rightarrow> Inl e | Inr i \<Rightarrow> Inr (Suc i)))"

text \<open>
  \<open>check_neareat_coord\<close>, lines 63-76, on the parsed lines of the label file of the
  rotated image: the squared distance of \<open>(rx, ry)\<close> to every line's centre in pixels
  of \<open>img\<close>, and the \<open>w\<close>, \<open>h\<close> fractions of the line at the first minimal position.
\<close>

definition check_neareat_coord ::
  "real \<Rightarrow> real \<Rightarrow> img_shape \<Rightarrow> detection list \<Rightarrow> py_error + real \<times> real" where
  "check_neareat_coord rx ry img lines =
     (let dis_list = map (\<lambda>line.
            let x = det_x line * real_of_int (shape1 img);
                y = det_y line * real_of_int (shape0 img)
            in (rx - x)\<^sup>2 + (ry - y)\<^sup>2) lines
      in case py_min dis_list of
           Inl e \<Rightarrow> Inl e
         | Inr m \<Rightarrow>
            (case py_index dis_list m of
               Inl e \<Rightarrow> Inl e
             | Inr min_value \<Rightarrow> Inr (det_w (lines ! min_value), det_h (lines ! min_value))))"

text \<open>Lines 143-145: the angle restricted to 180, 90 and 45 degrees.\<close>

definition restrict_angle180 :: "int \<Rightarrow> int" where
  "restrict_angle180 angle = (if angle < 180 then angle else angle - 180)"

definition restrict_angle90 :: "int \<Rightarrow> int" where
  "restrict_angle90 angle =
     (if restrict_angle180 angle \<le> 90 then restrict_angle180 angle else restrict_angle180 angle - 90)"

definition restrict_angle45 :: "int \<Rightarrow> int" where
  "restrict_angle45 angle =
     (if restrict_angle90 angle \<le> 45 then restrict_angle90 angle else 90 - restrict_angle90 angle)"

text \<open>Lines 105-115: the swap of \<open>w\<close> and \<open>h\<close> and the corners of the upright box
  \<open>(xmin, xmax, ymin, ymax)\<close>.\<close>

definition axis_swap :: "real \<Rightarrow> real \<Rightarrow> real \<times> real" where
  "axis_swap w h = (if w > h then (h, w) else (w, h))"

definition upright_box :: "real \<Rightarrow> real \<Rightarrow> real \<Rightarrow> real \<Rightarrow> int \<times> int \<times> int \<times> int" where
  "upright_box x y w h =
     (if w > h
      then (let (w, h) = (h, w)
            in (py_int (x - h / 2), py_int (x + h / 2), py_int (y - w / 2), py_int (y + w / 2)))
      else (py_int (x - w / 2), py_int (x + w / 2), py_int (y - h / 2), py_int (y + h / 2)))"

text \<open>
  Lines 151-159, the branch \<open>restrict_angle90 > 22.5 and restrict_angle90 < 67.5\<close>.
  \<open>rotate_point\<close> is called and its result bound to \<open>rx, ry\<close>, but
  \<open>check_neareat_coord\<close> is called with \<open>x, y\<close>.
\<close>

definition matched_extents ::
  "real \<Rightarrow> real \<Rightarrow> img_shape \<Rightarrow> img_shape \<Rightarrow> detection list \<Rightarrow> py_error + real \<times> real" where
  "matched_extents x y img r_img rlines =
     (let (rx, ry) = rotate_point x y (shape1 img) (shape0 img) 45
      in case check_neareat_coord x y r_img rlines of
           Inl e \<Rightarrow> Inl e
         | Inr (rw, rh) \<Rightarrow>
            (let rw = rw * real_of_int (shape1 img);
                 rh = rh * real_of_int (shape0 img)
             in Inr (if rw > rh then (rh, rw) else (rw, rh))))"

text \<open>
  Lines 161-162, the other branch.  The divisor is the float \<open>math.cos\<close> of a float, which
  is never \<open>0.0\<close> (no float is an odd multiple of \<open>pi / 2\<close>), so the division of line 162
  does not raise and the branch has no failure.  Where the real cosine is 0, which needs
  a restricted angle of 90 plus a multiple of 180 and so a label angle outside
  \<open>[0, 360)\<close>, the float cosine is of the order of \<open>1e-16\<close> and the float quotient of the
  order of \<open>1e17\<close>: there the real quotient written below does not give the float that the
  program computes, and no statement of this theory reads it.
\<close>

definition deconvolved_extents :: "real \<Rightarrow> real \<Rightarrow> real \<Rightarrow> real \<Rightarrow> real \<times> real" where
  "deconvolved_extents w h cos' sin' =
     (let rw = w * cos' - h * sin'
      in (rw, (h - rw * sin') / cos'))"

text \<open>Lines 176-181: the four corners of the rotated box.\<close>

definition corners ::
  "real \<Rightarrow> real \<Rightarrow> int \<Rightarrow> real \<Rightarrow> real \<Rightarrow> (int \<times> int) \<times> (int \<times> int) \<times> (int \<times> int) \<times> (int \<times> int)" where
  "corners rw rh angle x y =
     (let r_cos = cos (radians (real_of_int angle) + pi / 2);
          r_sin = sin (radians (real_of_int angle) + pi / 2)
      in ((py_int ((- rw / 2 * r_cos - rh / 2 * r_sin) + x), py_int ((rw / 2 * r_sin - rh / 2 * r_cos) + y)),
          (py_int ((rw / 2 * r_cos - rh / 2 * r_sin) + x), py_int ((- rw / 2 * r_sin - rh / 2 * r_cos) + y)),
          (py_int ((rw / 2 * r_cos + rh / 2 * r_sin) + x), py_int ((- rw / 2 * r_sin + rh / 2 * r_cos) + y)),
          (py_int ((- rw / 2 * r_cos + rh / 2 * r_sin) + x), py_int ((rw / 2 * r_sin + rh / 2 * r_cos) + y))))"

text \<open>
  What one iteration of the loop over the lines of a label file (lines 99-187) computes:
  \<open>w\<close> and \<open>h\<close> after the swap, the upright box, and, when a rotated box is drawn, its
  extents \<open>rw\<close>, \<open>rh\<close> and corners.
\<close>

record line_result =
  lr_w :: real
  lr_h :: real
  lr_box :: "int \<times> int \<times> int \<times> int"
  lr_extents :: "(real \<times> real) option"
  lr_corners :: "((int \<times> int) \<times> (int \<times> int) \<times> (int \<times> int) \<times> (int \<times> int)) option"

definition draw_line :: "img_shape \<Rightarrow> img_shape \<Rightarrow> detection list \<Rightarrow> detection \<Rightarrow> py_error + line_result" where
  "draw_line img r_img rlines line =
     (let angle = det_angle line;
          x = det_x line * real_of_int (shape1 img);
          y = det_y line * real_of_int (shape0 img);
          w0 = det_w line * real_of_int (shape1 img);
          h0 = det_h line * real_of_int (shape0 img);
          (w, h) = axis_swap w0 h0;
          box = upright_box x y w0 h0
      in if restrict_angle90 angle \<noteq> 0 \<and> restrict_angle90 angle \<noteq> 90
         then
           (let cos' = cos (radians (real_of_int (restrict_angle45 angle)));
                sin' = sin (radians (real_of_int (restrict_angle45 angle)))
            in case (if real_of_int (restrict_angle90 angle) > 22.5 \<and> real_of_int (restrict_angle90 angle) < 67.5
                     then matched_extents x y img r_img rlines
                     else Inr (deconvolved_extents w h cos' sin')) of
                 Inl e \<Rightarrow> Inl e
               | Inr (rw, rh) \<Rightarrow>
                   Inr \<lparr>lr_w = w, lr_h = h, lr_box = box, lr_extents = Some (rw, rh),
                        lr_corners = Some (corners rw rh angle x y)\<rparr>)
         else Inr \<lparr>lr_w = w, lr_h = h, lr_box = box, lr_extents = None, lr_corners = None\<rparr>)"

text \<open>
  The squared pixel distance that \<open>check_neareat_coord\<close> appends to \<open>dis_list\<close> for one
  line (line 73), named so that the position it selects can be described.
\<close>

definition sq_dist :: "real \<Rightarrow> real \<Rightarrow> img_shape \<Rightarrow> detection \<Rightarrow> real" where
  "sq_dist rx ry img line =
     (rx - det_x line * real_of_int (shape1 img))\<^sup>2 + (ry - det_y line * real_of_int (shape0 img))\<^sup>2"

section \<open>Auxiliary facts about the evaluator\<close>

lemma collect_map_Inr: "collect (map (\<lambda>x. Inr (f x)) xs) = Inr (map f xs)"
  by (induction xs) auto

lemma bias_loop_ok:
  "length rows = length ts \<Longrightarrow> length posts = length ts \<Longrightarrow> \<forall>r\<in>set rows. r \<noteq> [] \<Longrightarrow>
   \<exists>st. bias_loop thr rows posts ts = Inr st \<and> bias_topk st = map2 bias_row rows ts"
proof (induction thr rows posts ts rule: bias_loop.induct)
  case (4 threshold row rows post posts target ts)
  then obtain st where st: "bias_loop threshold rows posts ts = Inr st"
    "bias_topk st = map2 bias_row rows ts"
    by (cases "bias_row row target") (auto simp: bias_row_def)
  from 4 have "row \<noteq> []" by simp
  then obtain b0 bs where b: "bias_row row target = b0 # bs"
    by (cases row) (auto simp: bias_row_def)
  show ?case using st b by simp
qed auto

lemma fold_max_indicator:
  fixes c :: real
  shows "0 \<le> c \<Longrightarrow> c \<le> 1 \<Longrightarrow>
   fold max (map (\<lambda>v. if P v then 1 else 0) bs) c = (if \<exists>v\<in>set bs. P v then 1 else c)"
  by (induction bs arbitrary: c) (auto simp: max_def)

lemma acc_row_correct:
  "r \<noteq> [] \<Longrightarrow> acc_row (map (\<lambda>v. if v \<le> t then 1 else 0) r) =
     Inr (if hd r \<le> (t::int) then 1 else 0, if \<exists>v\<in>set r. v \<le> t then 1 else 0)"
  by (cases r) (auto simp: fold_max_indicator)

lemma accuracy_ok:
  assumes "\<forall>r\<in>set b. r \<noteq> []"
  shows "accuracy t b = Inr (mean0 (map (\<lambda>r. if hd r \<le> t then 1 else 0) b),
                             mean0 (map (\<lambda>r. if \<exists>v\<in>set r. v \<le> t then 1 else 0) b))"
proof -
  have "map acc_row (correct_of t b) =
        map (\<lambda>r. Inr (if hd r \<le> t then 1 else 0, if \<exists>v\<in>set r. v \<le> t then 1 else 0)) b"
    using assms by (simp add: correct_of_def acc_row_correct)
  then show ?thesis
    by (simp add: accuracy_def collect_map_Inr comp_def)
qed

lemma sum_list_indicator:
  "sum_list (map (\<lambda>x. if P x then 1 else 0) xs) = real (length (filter P xs))"
  by (induction xs) auto

lemma Calc_ok:
  assumes len: "length pred = length targets" "length pred_post = length targets"
    and K: "\<forall>row\<in>set pred. length row = K" "0 < K"
  shows "CalculateTopk_and_GetWrongSample pred pred_post targets t = Inr res \<Longrightarrow>
      res_bias_topk res = map2 bias_row pred targets
    \<and> top1 res = mean0 (map (\<lambda>r. if hd r \<le> t then 1 else 0) (map2 bias_row pred targets))
    \<and> top5 res = mean0 (map (\<lambda>r. if \<exists>v\<in>set r. v \<le> t then 1 else 0) (map2 bias_row pred targets))
    \<and> topk_list res = map (\<lambda>i. (mean0 (map (\<lambda>r. if hd r \<le> i then 1 else 0) (map2 bias_row pred targets)),
        mean0 (map (\<lambda>r. if \<exists>v\<in>set r. v \<le> i then 1 else 0) (map2 bias_row pred targets)))) [0..t]"
   and "\<exists>res. CalculateTopk_and_GetWrongSample pred pred_post targets t = Inr res"
proof -
  have ne: "\<forall>r\<in>set pred. r \<noteq> []" using K by auto
  obtain st where st: "bias_loop t pred pred_post targets = Inr st"
    "bias_topk st = map2 bias_row pred targets"
    using bias_loop_ok [OF len ne] by blast
  have ne': "\<forall>r\<in>set (map2 bias_row pred targets). r \<noteq> []"
    using ne by (auto simp: bias_row_def dest: set_zip_leftD)
  note acc = accuracy_ok [OF ne']
  show "\<exists>res. CalculateTopk_and_GetWrongSample pred pred_post targets t = Inr res"
    by (simp add: CalculateTopk_and_GetWrongSample_def st acc collect_map_Inr)
  show "CalculateTopk_and_GetWrongSample pred pred_post targets t = Inr res \<Longrightarrow>
      res_bias_topk res = map2 bias_row pred targets
    \<and> top1 res = mean0 (map (\<lambda>r. if hd r \<le> t then 1 else 0) (map2 bias_row pred targets))
    \<and> top5 res = mean0 (map (\<lambda>r. if \<exists>v\<in>set r. v \<le> t then 1 else 0) (map2 bias_row pred targets))
    \<and> topk_list res = map (\<lambda>i. (mean0 (map (\<lambda>r. if hd r \<le> i then 1 else 0) (map2 bias_row pred targets)),
        mean0 (map (\<lambda>r. if \<exists>v\<in>set r. v \<le> i then 1 else 0) (map2 bias_row pred targets)))) [0..t]"
    by (auto simp add: CalculateTopk_and_GetWrongSample_def st acc collect_map_Inr)
qed

lemma length_filter_index:
  "length (filter P xs) = length (filter (\<lambda>i. P (xs ! i)) [0..<length xs])"
proof -
  have "{i. i < length xs \<and> P (xs ! i)} = {i. i < length xs \<and> P (xs ! ([0..<length xs] ! i))}"
    by auto
  then show ?thesis
    by (simp add: length_filter_conv_card)
qed

lemma mean0_indicator:
  "xs \<noteq> [] \<Longrightarrow> mean0 (map (\<lambda>x. if P x then 1 else 0) xs) =
     Some (real (length (filter (\<lambda>i. P (xs ! i)) [0..<length xs])) / real (length xs))"
  using length_filter_index [of P xs] by (simp add: mean0_def sum_list_indicator)

lemma exists_bias_row:
  "(\<exists>v\<in>set (bias_row row target). v \<le> t) \<longleftrightarrow> (\<exists>k\<in>{0..<length row}. bias (row ! k) target \<le> t)"
  by (auto simp: bias_row_def in_set_conv_nth Bex_def)

lemma hd_bias_row: "row \<noteq> [] \<Longrightarrow> hd (bias_row row target) = bias (row ! 0) target"
  by (cases row) (auto simp: bias_row_def)

lemma mean0_top1:
  assumes "length pred = length targets" "targets \<noteq> []" "\<forall>r\<in>set pred. r \<noteq> []"
  shows "mean0 (map (\<lambda>r. if hd r \<le> t then 1 else 0) (map2 bias_row pred targets))
       = Some (top1_fraction pred targets t)"
proof -
  have ne: "map2 bias_row pred targets \<noteq> []" using assms by (cases pred; cases targets) auto
  have "filter (\<lambda>i. hd (map2 bias_row pred targets ! i) \<le> t) [0..<length targets]
      = filter (\<lambda>i. bias (pred ! i ! 0) (targets ! i) \<le> t) [0..<length targets]"
    using assms by (intro filter_cong) (auto simp: hd_bias_row)
  then show ?thesis
    using assms mean0_indicator [OF ne, of "\<lambda>r. hd r \<le> t"] by (simp add: top1_fraction_def)
qed

lemma mean0_topK:
  assumes "length pred = length targets" "targets \<noteq> []"
  shows "mean0 (map (\<lambda>r. if \<exists>v\<in>set r. v \<le> t then 1 else 0) (map2 bias_row pred targets))
       = Some (topK_fraction pred targets t)"
proof -
  have ne: "map2 bias_row pred targets \<noteq> []" using assms by (cases pred; cases targets) auto
  have "filter (\<lambda>i. \<exists>v\<in>set (map2 bias_row pred targets ! i). v \<le> t) [0..<length targets]
      = filter (\<lambda>i. \<exists>k\<in>{0..<length (pred ! i)}. bias (pred ! i ! k) (targets ! i) \<le> t) [0..<length targets]"
    using assms by (intro filter_cong) (auto simp: exists_bias_row)
  then show ?thesis
    using assms mean0_indicator [OF ne, of "\<lambda>r. \<exists>v\<in>set r. v \<le> t"] by (simp add: topK_fraction_def)
qed

lemma length_filter_mono:
  "(\<And>x. x \<in> set xs \<Longrightarrow> P x \<Longrightarrow> Q x) \<Longrightarrow> length (filter P xs) \<le> length (filter Q xs)"
  by (induction xs) auto

lemma top1_fraction_mono:
  assumes "t1 \<le> t2"
  shows "top1_fraction pred targets t1 \<le> top1_fraction pred targets t2"
  unfolding top1_fraction_def
  by (intro divide_right_mono of_nat_mono length_filter_mono) (use assms in auto)

lemma topK_fraction_mono:
  assumes "t1 \<le> t2"
  shows "topK_fraction pred targets t1 \<le> topK_fraction pred targets t2"
proof -
  have "\<And>i. \<exists>k\<in>{0..<length (pred ! i)}. bias (pred ! i ! k) (targets ! i) \<le> t1 \<Longrightarrow>
     \<exists>k\<in>{0..<length (pred ! i)}. bias (pred ! i ! k) (targets ! i) \<le> t2"
    using assms by (meson order_trans)
  then show ?thesis
    unfolding topK_fraction_def
    by (intro divide_right_mono of_nat_mono length_filter_mono) simp_all
qed

lemma Calc_fractions:
  assumes len: "length pred = length targets" "length pred_post = length targets"
    and ne: "targets \<noteq> []"
    and K: "\<forall>row\<in>set pred. length row = K" "0 < K"
  shows "\<exists>res. CalculateTopk_and_GetWrongSample pred pred_post targets t = Inr res
      \<and> top1 res = Some (top1_fraction pred targets t)
      \<and> top5 res = Some (topK_fraction pred targets t)
      \<and> topk_list res = map (\<lambda>i. (Some (top1_fraction pred targets i), Some (topK_fraction pred targets i))) [0..t]"
proof -
  have rows: "\<forall>r\<in>set pred. r \<noteq> []" using K by auto
  obtain res where res: "CalculateTopk_and_GetWrongSample pred pred_post targets t = Inr res"
    using Calc_ok(2) [OF len K] by blast
  note post = Calc_ok(1) [OF len K res]
  have "top1 res = Some (top1_fraction pred targets t)"
    by (simp only: post mean0_top1 [OF len(1) ne rows])
  moreover have "top5 res = Some (topK_fraction pred targets t)"
    by (simp only: post mean0_topK [OF len(1) ne])
  moreover have "topk_list res =
      map (\<lambda>i. (Some (top1_fraction pred targets i), Some (topK_fraction pred targets i))) [0..t]"
    by (simp only: post mean0_top1 [OF len(1) ne rows] mean0_topK [OF len(1) ne])
  ultimately show ?thesis using res by blast
qed

section \<open>Auxiliary facts about the geometry\<close>

lemma radians_45: "radians 45 = pi / 4"
  by (simp add: radians_def)

lemma cos_radians_45: "cos (radians 45) = sqrt 2 / 2"
  by (simp add: radians_45 cos_45)

lemma sqrt2_bounds: "141 / 100 < sqrt 2" "sqrt 2 < 142 / 100"
proof -
  show "141 / 100 < sqrt 2" by (rule real_less_rsqrt) (simp add: power2_eq_square)
  show "sqrt 2 < 142 / 100" by (rule real_less_lsqrt) (simp_all add: power2_eq_square)
qed

lemma sqrt2_upper: "sqrt 2 < 283 / 200"
  by (rule real_less_lsqrt) (simp_all add: power2_eq_square)

lemma py_int_nonneg: "0 \<le> r \<Longrightarrow> py_int r = \<lfloor>r\<rfloor>"
  by (simp add: py_int_def)

lemma side_100: "py_int (real_of_int (50 + 50) * cos (radians 45)) = 70"
proof -
  have "\<lfloor>100 * (sqrt 2 / 2)\<rfloor> = (70::int)"
    using sqrt2_bounds by (intro floor_unique) simp_all
  moreover have "0 \<le> 100 * (sqrt 2 / 2)" by simp
  ultimately show ?thesis by (simp add: cos_radians_45 py_int_def)
qed

lemma round_100: "round (real_of_int (50 + 50) * cos (radians 45)) = 71"
proof -
  have "round (100 * (sqrt 2 / 2)) = (71::int)"
    using sqrt2_bounds by (intro round_unique) simp_all
  then show ?thesis by (simp add: cos_radians_45)
qed

lemma side_200: "py_int (real_of_int (100 + 100) * cos (radians 45)) = 141"
proof -
  have "\<lfloor>200 * (sqrt 2 / 2)\<rfloor> = (141::int)"
    using sqrt2_bounds by (intro floor_unique) simp_all
  moreover have "0 \<le> 200 * (sqrt 2 / 2)" by simp
  ultimately show ?thesis by (simp add: cos_radians_45 py_int_def)
qed

lemma wedge_range:
  assumes "0 \<le> angle" "angle < 360"
  shows "restrict_angle180 angle = angle mod 180"
    and "0 \<le> restrict_angle90 angle" "restrict_angle90 angle \<le> 90"
    and "0 \<le> restrict_angle45 angle" "restrict_angle45 angle \<le> 45"
proof -
  have m: "angle mod 180 = (if angle < 180 then angle else angle - 180)"
    using assms by (auto intro: int_mod_pos_eq [where q = 1])
  show "restrict_angle180 angle = angle mod 180"
    by (simp add: restrict_angle180_def m)
  show "0 \<le> restrict_angle90 angle" "restrict_angle90 angle \<le> 90"
    "0 \<le> restrict_angle45 angle" "restrict_angle45 angle \<le> 45"
    using assms by (auto simp: restrict_angle45_def restrict_angle90_def restrict_angle180_def)
qed

lemma trig_wedge:
  fixes a :: int
  assumes "0 \<le> a" "a \<le> 45"
  shows "cos (radians 45) \<le> cos (radians (real_of_int a))"
    and "0 < cos (radians (real_of_int a))"
    and "0 \<le> sin (radians (real_of_int a))"
proof -
  have r: "0 \<le> radians (real_of_int a)" "radians (real_of_int a) \<le> pi / 4"
    using assms by (simp_all add: radians_def)
  have "cos (pi / 4) \<le> cos (radians (real_of_int a))"
    using r pi_gt_zero by (intro cos_monotone_0_pi_le) simp_all
  then show le: "cos (radians 45) \<le> cos (radians (real_of_int a))"
    by (simp add: radians_45)
  have "0 < cos (radians 45)" by (simp add: cos_radians_45)
  with le show "0 < cos (radians (real_of_int a))" by linarith
  show "0 \<le> sin (radians (real_of_int a))"
    using r pi_gt_zero by (intro sin_ge_zero) simp_all
qed

lemma deconvolution_order:
  fixes w h c s :: real
  assumes wh: "w \<le> h" and h: "0 \<le> h" and c: "0 < c" and s: "0 \<le> s"
    and unit: "s\<^sup>2 + c\<^sup>2 = 1"
  shows "w * c - h * s \<le> (h - (w * c - h * s) * s) / c"
proof -
  have "w * (c * (c + s)) \<le> h * (c * (c + s))"
    using wh c s by (intro mult_right_mono) simp_all
  moreover have "h * (c * (c + s)) = h * (1 + s * c + s\<^sup>2) - 2 * h * s\<^sup>2"
  proof -
    have "h * (c * (c + s)) = h * (c\<^sup>2 + s * c)"
      by (simp add: algebra_simps power2_eq_square)
    also have "c\<^sup>2 = 1 - s\<^sup>2" using unit by simp
    finally show ?thesis by (simp add: algebra_simps)
  qed
  moreover have "0 \<le> 2 * h * s\<^sup>2" using h by simp
  ultimately have "w * (c * (c + s)) \<le> h * (1 + s * c + s\<^sup>2)" by linarith
  then have "(w * c - h * s) * c \<le> h - (w * c - h * s) * s"
    by (simp add: algebra_simps power2_eq_square)
  then show ?thesis using c by (simp add: pos_le_divide_eq)
qed

lemma py_min_Min: "xs \<noteq> [] \<Longrightarrow> py_min xs = Inr (Min (set xs))"
  by (cases xs) (simp_all add: py_min_def Min.set_eq_fold [symmetric] del: set_simps)

lemma py_index_first:
  "v \<in> set xs \<Longrightarrow> \<exists>i. py_index xs v = Inr i \<and> i < length xs \<and> xs ! i = v \<and> (\<forall>j<i. xs ! j \<noteq> v)"
proof (induction xs)
  case Nil
  then show ?case by simp
next
  case (Cons a as)
  show ?case
  proof (cases "a = v")
    case True
    then show ?thesis by simp
  next
    case False
    with Cons obtain i where i: "py_index as v = Inr i" "i < length as" "as ! i = v"
      "\<forall>j<i. as ! j \<noteq> v" by auto
    have "\<forall>j<Suc i. (a # as) ! j \<noteq> v"
      using False i(4) by (auto simp: nth_Cons split: nat.splits)
    with False i show ?thesis by simp
  qed
qed

lemma check_neareat_coord_first_min:
  assumes "lines \<noteq> []"
  shows "\<exists>i<length lines.
           check_neareat_coord rx ry img lines = Inr (det_w (lines ! i), det_h (lines ! i))
         \<and> (\<forall>j<length lines. sq_dist rx ry img (lines ! i) \<le> sq_dist rx ry img (lines ! j))
         \<and> (\<forall>j<i. sq_dist rx ry img (lines ! i) < sq_dist rx ry img (lines ! j))"
proof -
  define ds where "ds = map (sq_dist rx ry img) lines"
  have ne: "ds \<noteq> []" using assms by (simp add: ds_def)
  then have "Min (set ds) \<in> set ds" by (intro Min_in) simp_all
  then obtain i where i: "py_index ds (Min (set ds)) = Inr i" "i < length ds"
    "ds ! i = Min (set ds)" "\<forall>j<i. ds ! j \<noteq> Min (set ds)"
    using py_index_first by blast
  have le: "ds ! i \<le> ds ! j" if "j < length ds" for j
    using that i(3) by simp
  have lt: "ds ! i < ds ! j" if "j < i" for j
  proof -
    have "ds ! j \<noteq> ds ! i" using that i(3,4) by simp
    moreover have "ds ! i \<le> ds ! j" using that i(2) le [of j] by simp
    ultimately show ?thesis by simp
  qed
  have "check_neareat_coord rx ry img lines = Inr (det_w (lines ! i), det_h (lines ! i))"
    using i(1) ne by (simp add: check_neareat_coord_def py_min_Min ds_def sq_dist_def [abs_def])
  with i(2) le lt show ?thesis
    by (auto simp: ds_def intro!: exI [of _ i])
qed

lemma check_neareat_coord_empty: "check_neareat_coord rx ry img [] = Inl ValueError"
  by (simp add: check_neareat_coord_def py_min_def)

lemma matched_extents_eq:
  "matched_extents x y img r_img rlines =
     (case check_neareat_coord x y r_img rlines of
        Inl e \<Rightarrow> Inl e
      | Inr (mw, mh) \<Rightarrow>
          Inr (min (mw * real_of_int (shape1 img)) (mh * real_of_int (shape0 img)),
               max (mw * real_of_int (shape1 img)) (mh * real_of_int (shape0 img))))"
  by (auto simp: matched_extents_def Let_def split_def min_def max_def split: sum.splits)

lemma draw_line_aligned:
  assumes "restrict_angle90 (det_angle line) = 0 \<or> restrict_angle90 (det_angle line) = 90"
  shows "draw_line img r_img rlines line =
     Inr \<lparr>lr_w = fst (axis_swap (det_w line * real_of_int (shape1 img)) (det_h line * real_of_int (shape0 img))),
          lr_h = snd (axis_swap (det_w line * real_of_int (shape1 img)) (det_h line * real_of_int (shape0 img))),
          lr_box = upright_box (det_x line * real_of_int (shape1 img)) (det_y line * real_of_int (shape0 img))
                     (det_w line * real_of_int (shape1 img)) (det_h line * real_of_int (shape0 img)),
          lr_extents = None, lr_corners = None\<rparr>"
  using assms by (auto simp: draw_line_def Let_def split_def)

lemma draw_line_rotated:
  assumes "restrict_angle90 (det_angle line) \<noteq> 0" "restrict_angle90 (det_angle line) \<noteq> 90"
    and "(if real_of_int (restrict_angle90 (det_angle line)) > 22.5
            \<and> real_of_int (restrict_angle90 (det_angle line)) < 67.5
          then matched_extents (det_x line * real_of_int (shape1 img)) (det_y line * real_of_int (shape0 img))
                 img r_img rlines
          else Inr (deconvolved_extents
                 (fst (axis_swap (det_w line * real_of_int (shape1 img)) (det_h line * real_of_int (shape0 img))))
                 (snd (axis_swap (det_w line * real_of_int (shape1 img)) (det_h line * real_of_int (shape0 img))))
                 (cos (radians (real_of_int (restrict_angle45 (det_angle line)))))
                 (sin (radians (real_of_int (restrict_angle45 (det_angle line))))))) = ext"
  shows "draw_line img r_img rlines line =
     (case ext of
        Inl e \<Rightarrow> Inl e
      | Inr (rw, rh) \<Rightarrow>
         Inr \<lparr>lr_w = fst (axis_swap (det_w line * real_of_int (shape1 img)) (det_h line * real_of_int (shape0 img))),
              lr_h = snd (axis_swap (det_w line * real_of_int (shape1 img)) (det_h line * real_of_int (shape0 img))),
              lr_box = upright_box (det_x line * real_of_int (shape1 img)) (det_y line * real_of_int (shape0 img))
                     (det_w line * real_of_int (shape1 img)) (det_h line * real_of_int (shape0 img)),
              lr_extents = Some (rw, rh),
              lr_corners = Some (corners rw rh (det_angle line)
                 (det_x line * real_of_int (shape1 img)) (det_y line * real_of_int (shape0 img)))\<rparr>)"
  using assms(1,2) unfolding assms(3) [symmetric]
  by (simp add: draw_line_def Let_def split_def)

lemma rotate_point_centre: "rotate_point 50 50 100 100 45 = (70, 70)"
proof -
  have "py_int (real_of_int (100 + 100) * cos (radians 45)) = 141" by (rule side_200)
  then have "py_int (200 * cos (radians 45)) = 141" by simp
  then show ?thesis
    by (simp add: rotate_point_def Let_def py_int_def) 
qed

lemma sqrt2_lower: "707 / 500 < sqrt 2"
  by (rule real_less_rsqrt) (simp add: power2_eq_square)

lemma side_283: "py_int (real_of_int (141 + 142) * cos (radians 45)) = 200"
proof -
  have "\<lfloor>283 * (sqrt 2 / 2)\<rfloor> = (200::int)"
    using sqrt2_lower sqrt2_bounds(2) by (intro floor_unique) simp_all
  moreover have "0 \<le> 283 * (sqrt 2 / 2)" by simp
  ultimately show ?thesis by (simp add: cos_radians_45 py_int_def)
qed

lemma axis_swap_min_max: "axis_swap w h = (min w h, max w h)"
  by (simp add: axis_swap_def min_def max_def)

lemma deconvolved_extents_eq:
  "deconvolved_extents w h c s = (w * c - h * s, (h - (w * c - h * s) * s) / c)"
  by (simp add: deconvolved_extents_def Let_def)

lemma matched_extents_cases:
  "matched_extents x y img r_img rlines = Inl e \<Longrightarrow> e = ValueError \<and> rlines = []"
  "matched_extents x y img r_img rlines = Inr (rw, rh) \<Longrightarrow> rw \<le> rh"
proof -
  show "e = ValueError \<and> rlines = []" if "matched_extents x y img r_img rlines = Inl e"
  proof (cases "rlines = []")
    case True
    with that show ?thesis by (simp add: matched_extents_eq check_neareat_coord_empty)
  next
    case False
    then obtain i where "check_neareat_coord x y r_img rlines = Inr (det_w (rlines ! i), det_h (rlines ! i))"
      using check_neareat_coord_first_min [of rlines x y r_img] by blast
    with that show ?thesis by (simp add: matched_extents_eq)
  qed
  show "rw \<le> rh" if "matched_extents x y img r_img rlines = Inr (rw, rh)"
    using that by (auto simp: matched_extents_eq split: sum.splits)
qed

section \<open>Circular bias\<close>

text \<open>
  C1.  For angles \<open>a\<close>, \<open>b\<close> in \<open>[0, 360)\<close> the bias computed for a prediction and a
  ground truth is \<open>min (|a - b|) (360 - |a - b|)\<close>; it is symmetric, lies in
  \<open>[0, 180]\<close>, is 0 on equal angles and is 180 on opposite angles.
\<close>

theorem bias_circular_distance:
  assumes "0 \<le> a" "a < 360" "0 \<le> b" "b < 360"
  shows "bias a b = min \<bar>a - b\<bar> (360 - \<bar>a - b\<bar>)
       \<and> bias a b = bias b a
       \<and> 0 \<le> bias a b \<and> bias a b \<le> 180
       \<and> bias a a = 0
       \<and> bias a ((a + 180) mod 360) = 180"
proof -
  have "(a + 180) mod 360 = (if a < 180 then a + 180 else a - 180)"
    using assms by (auto intro: int_mod_pos_eq [where q = 1])
  then show ?thesis
    using assms by (auto simp: bias_def Let_def)
qed

theorem bias_circular_distance_witness:
  "(0::int) \<le> 350 \<and> (350::int) < 360 \<and> (0::int) \<le> 10 \<and> (10::int) < 360
   \<and> bias 350 10 = 20 \<and> bias 350 10 = bias 10 350
   \<and> bias 350 350 = 0 \<and> bias 350 170 = 180"
  using bias_circular_distance [of 350 10] by simp

section \<open>Top-1 and top-K accuracy\<close>

text \<open>
  C2.  For a batch of \<open>N > 0\<close> ranked prediction rows of \<open>K > 0\<close> candidates each and
  \<open>N\<close> ground-truth angles, and every threshold \<open>t\<close>, the function returns, as
  \<open>top1\<close>, the share of samples whose rank-0 candidate has bias at most \<open>t\<close> and, as
  \<open>top5\<close>, the share of samples with at least one candidate of bias at most \<open>t\<close>.
\<close>

theorem topk_accuracy_is_fraction:
  assumes "length pred = length targets" "length pred_post = length targets"
    and "targets \<noteq> []"
    and "\<forall>row\<in>set pred. length row = K" "0 < K"
  shows "\<exists>res. CalculateTopk_and_GetWrongSample pred pred_post targets t = Inr res
      \<and> top1 res = Some (top1_fraction pred targets t)
      \<and> top5 res = Some (topK_fraction pred targets t)"
  using Calc_fractions [OF assms, of t] by blast

text \<open>
  On two samples with ground truth 15 and threshold 2: no rank-0 candidate is within 2
  degrees, and the second sample has the candidate 14.
\<close>

theorem topk_accuracy_is_fraction_witness:
  "\<exists>res. CalculateTopk_and_GetWrongSample [[10, 190, 50], [100, 14, 300]] [[10, 190, 50], [100, 14, 300]] [15, 15] 2 = Inr res
      \<and> top1 res = Some 0 \<and> top5 res = Some (1 / 2)"
proof -
  have a: "top1_fraction [[10, 190, 50], [100, 14, 300]] [15, 15] 2 = 0"
    by (simp add: top1_fraction_def bias_def upt_rec)
  have b: "topK_fraction [[10, 190, 50], [100, 14, 300]] [15, 15] 2 = 1 / 2"
    by (simp add: topK_fraction_def bias_def upt_rec atLeast0_lessThan_Suc)
  have "\<exists>res. CalculateTopk_and_GetWrongSample [[10, 190, 50], [100, 14, 300]]
           [[10, 190, 50], [100, 14, 300]] [15, 15] 2 = Inr res
      \<and> top1 res = Some (top1_fraction [[10, 190, 50], [100, 14, 300]] [15, 15] 2)
      \<and> top5 res = Some (topK_fraction [[10, 190, 50], [100, 14, 300]] [15, 15] 2)"
    by (rule topk_accuracy_is_fraction [where K = 3]) simp_all
  then show ?thesis unfolding a b .
qed

section \<open>Threshold sweep\<close>

text \<open>
  C3.  For a non-empty batch, \<open>topk_list\<close> has one entry for every integer threshold
  from 0 to the given threshold \<open>T\<close>, entry \<open>i\<close> being the pair \<open>(top1, top5)\<close> that the
  function computes at threshold \<open>i\<close>; and for \<open>t1 < t2\<close> both accuracies at \<open>t1\<close> are
  at most those at \<open>t2\<close>.
\<close>

theorem threshold_sweep_monotone:
  assumes "length pred = length targets" "length pred_post = length targets"
    and "targets \<noteq> []"
    and "\<forall>row\<in>set pred. length row = K" "0 < K"
  shows "\<exists>res. CalculateTopk_and_GetWrongSample pred pred_post targets T = Inr res
      \<and> length (topk_list res) = nat (T + 1)
      \<and> (0 \<le> i \<and> i \<le> T \<longrightarrow>
           (\<exists>ri. CalculateTopk_and_GetWrongSample pred pred_post targets i = Inr ri
              \<and> topk_list res ! nat i = (top1 ri, top5 ri)))
      \<and> (t1 < t2 \<longrightarrow>
           (\<exists>r1 r2 a1 a2 b1 b2.
              CalculateTopk_and_GetWrongSample pred pred_post targets t1 = Inr r1
            \<and> CalculateTopk_and_GetWrongSample pred pred_post targets t2 = Inr r2
            \<and> top1 r1 = Some a1 \<and> top1 r2 = Some a2 \<and> a1 \<le> a2
            \<and> top5 r1 = Some b1 \<and> top5 r2 = Some b2 \<and> b1 \<le> b2))"
proof -
  obtain res where res: "CalculateTopk_and_GetWrongSample pred pred_post targets T = Inr res"
    "topk_list res = map (\<lambda>i. (Some (top1_fraction pred targets i), Some (topK_fraction pred targets i))) [0..T]"
    using Calc_fractions [OF assms, of T] by blast
  have len: "length (topk_list res) = nat (T + 1)"
    by (simp add: res(2))
  have entry: "\<exists>ri. CalculateTopk_and_GetWrongSample pred pred_post targets i = Inr ri
              \<and> topk_list res ! nat i = (top1 ri, top5 ri)" if "0 \<le> i \<and> i \<le> T"
  proof -
    obtain ri where ri: "CalculateTopk_and_GetWrongSample pred pred_post targets i = Inr ri"
      "top1 ri = Some (top1_fraction pred targets i)" "top5 ri = Some (topK_fraction pred targets i)"
      using Calc_fractions [OF assms, of i] by blast
    have "[0..T] ! nat i = i" using that by (simp add: nth_upto)
    then have "topk_list res ! nat i = (top1 ri, top5 ri)"
      using that by (simp add: res(2) ri(2,3))
    with ri(1) show ?thesis by blast
  qed
  have mono: "\<exists>r1 r2 a1 a2 b1 b2.
              CalculateTopk_and_GetWrongSample pred pred_post targets t1 = Inr r1
            \<and> CalculateTopk_and_GetWrongSample pred pred_post targets t2 = Inr r2
            \<and> top1 r1 = Some a1 \<and> top1 r2 = Some a2 \<and> a1 \<le> a2
            \<and> top5 r1 = Some b1 \<and> top5 r2 = Some b2 \<and> b1 \<le> b2" if "t1 < t2"
  proof -
    obtain r1 where r1: "CalculateTopk_and_GetWrongSample pred pred_post targets t1 = Inr r1"
      "top1 r1 = Some (top1_fraction pred targets t1)" "top5 r1 = Some (topK_fraction pred targets t1)"
      using Calc_fractions [OF assms, of t1] by blast
    obtain r2 where r2: "CalculateTopk_and_GetWrongSample pred pred_post targets t2 = Inr r2"
      "top1 r2 = Some (top1_fraction pred targets t2)" "top5 r2 = Some (topK_fraction pred targets t2)"
      using Calc_fractions [OF assms, of t2] by blast
    have "t1 \<le> t2" using that by simp
    then have "top1_fraction pred targets t1 \<le> top1_fraction pred targets t2"
      "topK_fraction pred targets t1 \<le> topK_fraction pred targets t2"
      by (rule top1_fraction_mono, rule topK_fraction_mono)
    with r1 r2 show ?thesis by blast
  qed
  from res(1) len entry mono show ?thesis by blast
qed

text \<open>
  The same two samples swept to 10 degrees, read at thresholds 2 and 5.
\<close>

theorem threshold_sweep_monotone_witness:
  "\<exists>res r1 r2 a1 a2 b1 b2.
      CalculateTopk_and_GetWrongSample [[10, 190, 50], [100, 14, 300]] [[10, 190, 50], [100, 14, 300]] [15, 15] 10 = Inr res
    \<and> length (topk_list res) = 11
    \<and> topk_list res ! 5 = (top1 r2, top5 r2)
    \<and> CalculateTopk_and_GetWrongSample [[10, 190, 50], [100, 14, 300]] [[10, 190, 50], [100, 14, 300]] [15, 15] 2 = Inr r1
    \<and> CalculateTopk_and_GetWrongSample [[10, 190, 50], [100, 14, 300]] [[10, 190, 50], [100, 14, 300]] [15, 15] 5 = Inr r2
    \<and> top1 r1 = Some a1 \<and> top1 r2 = Some a2 \<and> a1 \<le> a2
    \<and> top5 r1 = Some b1 \<and> top5 r2 = Some b2 \<and> b1 \<le> b2
    \<and> a1 = 0 \<and> a2 = 1 / 2 \<and> b1 = 1 / 2 \<and> b2 = 1"
proof -
  have e2: "map_sum id (\<lambda>r. (top1 r, top5 r))
      (CalculateTopk_and_GetWrongSample [[10, 190, 50], [100, 14, 300]] [[10, 190, 50], [100, 14, 300]] [15, 15] 2)
      = Inr (Some 0, Some (1 / 2))"
    by (simp add: CalculateTopk_and_GetWrongSample_def bias_row_def bias_def accuracy_def
        correct_of_def mean0_def upto_rec1)
  have e5: "map_sum id (\<lambda>r. (top1 r, top5 r))
      (CalculateTopk_and_GetWrongSample [[10, 190, 50], [100, 14, 300]] [[10, 190, 50], [100, 14, 300]] [15, 15] 5)
      = Inr (Some (1 / 2), Some 1)"
    by (simp add: CalculateTopk_and_GetWrongSample_def bias_row_def bias_def accuracy_def
        correct_of_def mean0_def upto_rec1)
  have "\<exists>res. CalculateTopk_and_GetWrongSample [[10, 190, 50], [100, 14, 300]] [[10, 190, 50], [100, 14, 300]] [15, 15] 10 = Inr res
      \<and> length (topk_list res) = nat (10 + 1)
      \<and> (0 \<le> (5::int) \<and> (5::int) \<le> 10 \<longrightarrow>
           (\<exists>ri. CalculateTopk_and_GetWrongSample [[10, 190, 50], [100, 14, 300]] [[10, 190, 50], [100, 14, 300]] [15, 15] 5 = Inr ri
              \<and> topk_list res ! nat 5 = (top1 ri, top5 ri)))
      \<and> ((2::int) < 5 \<longrightarrow>
           (\<exists>r1 r2 a1 a2 b1 b2.
              CalculateTopk_and_GetWrongSample [[10, 190, 50], [100, 14, 300]] [[10, 190, 50], [100, 14, 300]] [15, 15] 2 = Inr r1
            \<and> CalculateTopk_and_GetWrongSample [[10, 190, 50], [100, 14, 300]] [[10, 190, 50], [100, 14, 300]] [15, 15] 5 = Inr r2
            \<and> top1 r1 = Some a1 \<and> top1 r2 = Some a2 \<and> a1 \<le> a2
            \<and> top5 r1 = Some b1 \<and> top5 r2 = Some b2 \<and> b1 \<le> b2))"
    by (rule threshold_sweep_monotone [where K = 3]) simp_all
  then show ?thesis
    using e2 e5 by (fastforce simp: eval_nat_numeral)
qed

section \<open>Nearest label in the rotated image\<close>

text \<open>
  C4.  The query handed to \<open>check_neareat_coord\<close> is the centre \<open>x, y\<close> in the original
  image, not the point \<open>rx, ry\<close> that \<open>rotate_point\<close> computed for it.  On a 141 by 142
  image (rotated image 200 by 200) the centre (70.5, 71) projects to (100, 100), where the
  second label of the rotated image lies; the loop nevertheless takes the extents of the
  first label, which lies at (70, 70).
\<close>

theorem matcher_query_not_projected:
  "rotated45_side 141 142 = 200
   \<and> rotate_point (141 / 2) 71 141 142 45 = (100, 100)
   \<and> check_neareat_coord 100 100 \<lparr>shape0 = 200, shape1 = 200\<rparr>
        [\<lparr>det_angle = 30, det_x = 7 / 20, det_y = 7 / 20, det_w = 3 / 10, det_h = 2 / 5\<rparr>,
         \<lparr>det_angle = 30, det_x = 1 / 2, det_y = 1 / 2, det_w = 1 / 2, det_h = 3 / 5\<rparr>]
       = Inr (1 / 2, 3 / 5)
   \<and> map_sum id lr_extents
        (draw_line \<lparr>shape0 = 142, shape1 = 141\<rparr> \<lparr>shape0 = 200, shape1 = 200\<rparr>
          [\<lparr>det_angle = 30, det_x = 7 / 20, det_y = 7 / 20, det_w = 3 / 10, det_h = 2 / 5\<rparr>,
           \<lparr>det_angle = 30, det_x = 1 / 2, det_y = 1 / 2, det_w = 1 / 2, det_h = 3 / 5\<rparr>]
          \<lparr>det_angle = 30, det_x = 1 / 2, det_y = 1 / 2, det_w = 1 / 10, det_h = 1 / 5\<rparr>)
       = Inr (Some (3 / 10 * 141, 2 / 5 * 142))"
proof -
  have side: "rotated45_side 141 142 = 200"
    using side_283 by (simp add: rotated45_side_def)
  have "py_int (283 * cos (radians 45)) = 200"
    using side_283 by simp
  then have proj: "rotate_point (141 / 2) 71 141 142 45 = (100, 100)"
    by (simp add: rotate_point_def Let_def py_int_def)
  have near: "check_neareat_coord 100 100 \<lparr>shape0 = 200, shape1 = 200\<rparr>
        [\<lparr>det_angle = 30, det_x = 7 / 20, det_y = 7 / 20, det_w = 3 / 10, det_h = 2 / 5\<rparr>,
         \<lparr>det_angle = 30, det_x = 1 / 2, det_y = 1 / 2, det_w = 1 / 2, det_h = 3 / 5\<rparr>]
       = Inr (1 / 2, 3 / 5)"
    by (simp add: check_neareat_coord_def py_min_def Let_def)
  have a90: "restrict_angle90 30 = 30"
    by (simp add: restrict_angle90_def restrict_angle180_def)
  have m: "matched_extents (141 / 2) 71
         \<lparr>shape0 = 142, shape1 = 141\<rparr> \<lparr>shape0 = 200, shape1 = 200\<rparr>
        [\<lparr>det_angle = 30, det_x = 7 / 20, det_y = 7 / 20, det_w = 3 / 10, det_h = 2 / 5\<rparr>,
         \<lparr>det_angle = 30, det_x = 1 / 2, det_y = 1 / 2, det_w = 1 / 2, det_h = 3 / 5\<rparr>]
       = Inr (3 / 10 * 141, 2 / 5 * 142)"
    by (simp add: matched_extents_eq check_neareat_coord_def py_min_def Let_def power2_eq_square)
  have "map_sum id lr_extents
        (draw_line \<lparr>shape0 = 142, shape1 = 141\<rparr> \<lparr>shape0 = 200, shape1 = 200\<rparr>
          [\<lparr>det_angle = 30, det_x = 7 / 20, det_y = 7 / 20, det_w = 3 / 10, det_h = 2 / 5\<rparr>,
           \<lparr>det_angle = 30, det_x = 1 / 2, det_y = 1 / 2, det_w = 1 / 2, det_h = 3 / 5\<rparr>]
          \<lparr>det_angle = 30, det_x = 1 / 2, det_y = 1 / 2, det_w = 1 / 10, det_h = 1 / 5\<rparr>)
       = Inr (Some (3 / 10 * 141, 2 / 5 * 142))"
    using m by (subst draw_line_rotated [OF _ _ refl]) (simp_all add: a90)
  with side proj near show ?thesis by blast
qed

section \<open>The three reconstruction branches\<close>

text \<open>
  What the iteration does in each branch, for a label with angle in \<open>[0, 360)\<close>, with
  \<open>x, y\<close> its centre and \<open>w \<le> h\<close> its extents in pixels of the original image.  In the zone
  \<open>22.5 < a90 < 67.5\<close> the label of the rotated image that is taken is the first of those
  at the least squared distance from \<open>(x, y)\<close>, the centre as it lies in the original image;
  its \<open>w\<close>, \<open>h\<close> fractions are multiplied by the width and height of the original image
  and ordered.  Outside the zone the extents are \<open>rw = w cos a45 - h sin a45\<close> and
  \<open>rh = (h - rw sin a45) / cos a45\<close>.  For \<open>a90\<close> 0 or 90 no rotated box is computed.
\<close>

lemma draw_line_branches:
  assumes ang: "0 \<le> det_angle line" "det_angle line < 360"
    and a90: "a90 = restrict_angle90 (det_angle line)"
    and a45: "a45 = radians (real_of_int (restrict_angle45 (det_angle line)))"
    and xy: "x = det_x line * real_of_int (shape1 img)" "y = det_y line * real_of_int (shape0 img)"
    and wh: "w = min (det_w line * real_of_int (shape1 img)) (det_h line * real_of_int (shape0 img))"
            "h = max (det_w line * real_of_int (shape1 img)) (det_h line * real_of_int (shape0 img))"
  shows "(a90 \<noteq> 0 \<and> a90 \<noteq> 90 \<and> 22.5 < real_of_int a90 \<and> real_of_int a90 < 67.5 \<and> rlines \<noteq> [] \<longrightarrow>
            (\<exists>i<length rlines. \<exists>r.
                 (\<forall>j<length rlines. sq_dist x y r_img (rlines ! i) \<le> sq_dist x y r_img (rlines ! j))
               \<and> (\<forall>j<i. sq_dist x y r_img (rlines ! i) < sq_dist x y r_img (rlines ! j))
               \<and> draw_line img r_img rlines line = Inr r
               \<and> lr_extents r =
                   Some (min (det_w (rlines ! i) * real_of_int (shape1 img))
                             (det_h (rlines ! i) * real_of_int (shape0 img)),
                         max (det_w (rlines ! i) * real_of_int (shape1 img))
                             (det_h (rlines ! i) * real_of_int (shape0 img)))))
       \<and> (a90 \<noteq> 0 \<and> a90 \<noteq> 90 \<and> \<not> (22.5 < real_of_int a90 \<and> real_of_int a90 < 67.5) \<longrightarrow>
            (\<exists>r. draw_line img r_img rlines line = Inr r
               \<and> lr_extents r = Some (w * cos a45 - h * sin a45,
                                      (h - (w * cos a45 - h * sin a45) * sin a45) / cos a45)))
       \<and> (a90 = 0 \<or> a90 = 90 \<longrightarrow>
            (\<exists>r. draw_line img r_img rlines line = Inr r
               \<and> lr_extents r = None \<and> lr_corners r = None \<and> lr_w r = w \<and> lr_h r = h))"
proof (intro conjI impI)
  assume amb: "a90 \<noteq> 0 \<and> a90 \<noteq> 90 \<and> 22.5 < real_of_int a90 \<and> real_of_int a90 < 67.5 \<and> rlines \<noteq> []"
  then obtain i where i: "i < length rlines"
      "check_neareat_coord x y r_img rlines = Inr (det_w (rlines ! i), det_h (rlines ! i))"
      "\<forall>j<length rlines. sq_dist x y r_img (rlines ! i) \<le> sq_dist x y r_img (rlines ! j)"
      "\<forall>j<i. sq_dist x y r_img (rlines ! i) < sq_dist x y r_img (rlines ! j)"
    using check_neareat_coord_first_min [of rlines x y r_img] by blast
  have "\<exists>r. draw_line img r_img rlines line = Inr r
          \<and> lr_extents r =
                   Some (min (det_w (rlines ! i) * real_of_int (shape1 img))
                             (det_h (rlines ! i) * real_of_int (shape0 img)),
                         max (det_w (rlines ! i) * real_of_int (shape1 img))
                             (det_h (rlines ! i) * real_of_int (shape0 img)))"
    using amb i(2) unfolding a90 xy
    by (subst draw_line_rotated [OF _ _ refl]) (simp_all add: matched_extents_eq)
  with i(1,3,4) show "\<exists>i<length rlines. \<exists>r.
                 (\<forall>j<length rlines. sq_dist x y r_img (rlines ! i) \<le> sq_dist x y r_img (rlines ! j))
               \<and> (\<forall>j<i. sq_dist x y r_img (rlines ! i) < sq_dist x y r_img (rlines ! j))
               \<and> draw_line img r_img rlines line = Inr r
               \<and> lr_extents r =
                   Some (min (det_w (rlines ! i) * real_of_int (shape1 img))
                             (det_h (rlines ! i) * real_of_int (shape0 img)),
                         max (det_w (rlines ! i) * real_of_int (shape1 img))
                             (det_h (rlines ! i) * real_of_int (shape0 img)))"
    by blast
next
  assume dec: "a90 \<noteq> 0 \<and> a90 \<noteq> 90 \<and> \<not> (22.5 < real_of_int a90 \<and> real_of_int a90 < 67.5)"
  then show "\<exists>r. draw_line img r_img rlines line = Inr r
               \<and> lr_extents r = Some (w * cos a45 - h * sin a45,
                                      (h - (w * cos a45 - h * sin a45) * sin a45) / cos a45)"
    unfolding a90 a45 wh
    by (subst draw_line_rotated [OF _ _ refl])
       (auto simp: axis_swap_min_max deconvolved_extents_eq)
next
  assume "a90 = 0 \<or> a90 = 90"
  then show "\<exists>r. draw_line img r_img rlines line = Inr r
               \<and> lr_extents r = None \<and> lr_corners r = None \<and> lr_w r = w \<and> lr_h r = h"
    unfolding a90 wh by (simp add: draw_line_aligned axis_swap_min_max)
qed

text \<open>
  C5.  In the zone \<open>22.5 < a90 < 67.5\<close> the extents do not come from the label of the
  rotated image that is nearest to the projected centre.  On a 141 by 142 image (rotated
  image 200 by 200), for a label at angle 30 with centre (70.5, 71): the centre projects to
  (100, 100), where the first label of the rotated image lies (squared distances 0 and 1800
  from the projected point), and that label has extents 0.5 by 0.6; the iteration measures
  from (70.5, 71) instead (squared distances 1711.25 and 1.25) and takes the extents
  0.3 by 0.4 of the second label, which lies at (70, 70).
\<close>

theorem ambiguous_zone_match_not_projected:
  "rotate_point (141 / 2) 71 141 142 45 = (100, 100)
   \<and> sq_dist 100 100 \<lparr>shape0 = 200, shape1 = 200\<rparr>
        \<lparr>det_angle = 30, det_x = 1 / 2, det_y = 1 / 2, det_w = 1 / 2, det_h = 3 / 5\<rparr> = 0
   \<and> sq_dist 100 100 \<lparr>shape0 = 200, shape1 = 200\<rparr>
        \<lparr>det_angle = 30, det_x = 7 / 20, det_y = 7 / 20, det_w = 3 / 10, det_h = 2 / 5\<rparr> = 1800
   \<and> check_neareat_coord 100 100 \<lparr>shape0 = 200, shape1 = 200\<rparr>
        [\<lparr>det_angle = 30, det_x = 1 / 2, det_y = 1 / 2, det_w = 1 / 2, det_h = 3 / 5\<rparr>,
         \<lparr>det_angle = 30, det_x = 7 / 20, det_y = 7 / 20, det_w = 3 / 10, det_h = 2 / 5\<rparr>]
       = Inr (1 / 2, 3 / 5)
   \<and> sq_dist (141 / 2) 71 \<lparr>shape0 = 200, shape1 = 200\<rparr>
        \<lparr>det_angle = 30, det_x = 1 / 2, det_y = 1 / 2, det_w = 1 / 2, det_h = 3 / 5\<rparr> = 6845 / 4
   \<and> sq_dist (141 / 2) 71 \<lparr>shape0 = 200, shape1 = 200\<rparr>
        \<lparr>det_angle = 30, det_x = 7 / 20, det_y = 7 / 20, det_w = 3 / 10, det_h = 2 / 5\<rparr> = 5 / 4
   \<and> map_sum id lr_extents
        (draw_line \<lparr>shape0 = 142, shape1 = 141\<rparr> \<lparr>shape0 = 200, shape1 = 200\<rparr>
          [\<lparr>det_angle = 30, det_x = 1 / 2, det_y = 1 / 2, det_w = 1 / 2, det_h = 3 / 5\<rparr>,
           \<lparr>det_angle = 30, det_x = 7 / 20, det_y = 7 / 20, det_w = 3 / 10, det_h = 2 / 5\<rparr>]
          \<lparr>det_angle = 30, det_x = 1 / 2, det_y = 1 / 2, det_w = 1 / 10, det_h = 1 / 5\<rparr>)
       = Inr (Some (3 / 10 * 141, 2 / 5 * 142))"
proof -
  have "py_int (283 * cos (radians 45)) = 200"
    using side_283 by simp
  then have proj: "rotate_point (141 / 2) 71 141 142 45 = (100, 100)"
    by (simp add: rotate_point_def Let_def py_int_def)
  have d: "sq_dist 100 100 \<lparr>shape0 = 200, shape1 = 200\<rparr>
        \<lparr>det_angle = 30, det_x = 1 / 2, det_y = 1 / 2, det_w = 1 / 2, det_h = 3 / 5\<rparr> = 0"
    "sq_dist 100 100 \<lparr>shape0 = 200, shape1 = 200\<rparr>
        \<lparr>det_angle = 30, det_x = 7 / 20, det_y = 7 / 20, det_w = 3 / 10, det_h = 2 / 5\<rparr> = 1800"
    "sq_dist (141 / 2) 71 \<lparr>shape0 = 200, shape1 = 200\<rparr>
        \<lparr>det_angle = 30, det_x = 1 / 2, det_y = 1 / 2, det_w = 1 / 2, det_h = 3 / 5\<rparr> = 6845 / 4"
    "sq_dist (141 / 2) 71 \<lparr>shape0 = 200, shape1 = 200\<rparr>
        \<lparr>det_angle = 30, det_x = 7 / 20, det_y = 7 / 20, det_w = 3 / 10, det_h = 2 / 5\<rparr> = 5 / 4"
    by (simp_all add: sq_dist_def power2_eq_square)
  have near: "check_neareat_coord 100 100 \<lparr>shape0 = 200, shape1 = 200\<rparr>
        [\<lparr>det_angle = 30, det_x = 1 / 2, det_y = 1 / 2, det_w = 1 / 2, det_h = 3 / 5\<rparr>,
         \<lparr>det_angle = 30, det_x = 7 / 20, det_y = 7 / 20, det_w = 3 / 10, det_h = 2 / 5\<rparr>]
       = Inr (1 / 2, 3 / 5)"
    by (simp add: check_neareat_coord_def py_min_def Let_def power2_eq_square)
  have a90: "restrict_angle90 30 = 30"
    by (simp add: restrict_angle90_def restrict_angle180_def)
  have m: "matched_extents (141 / 2) 71
         \<lparr>shape0 = 142, shape1 = 141\<rparr> \<lparr>shape0 = 200, shape1 = 200\<rparr>
        [\<lparr>det_angle = 30, det_x = 1 / 2, det_y = 1 / 2, det_w = 1 / 2, det_h = 3 / 5\<rparr>,
         \<lparr>det_angle = 30, det_x = 7 / 20, det_y = 7 / 20, det_w = 3 / 10, det_h = 2 / 5\<rparr>]
       = Inr (3 / 10 * 141, 2 / 5 * 142)"
    by (simp add: matched_extents_eq check_neareat_coord_def py_min_def Let_def power2_eq_square)
  have "map_sum id lr_extents
        (draw_line \<lparr>shape0 = 142, shape1 = 141\<rparr> \<lparr>shape0 = 200, shape1 = 200\<rparr>
          [\<lparr>det_angle = 30, det_x = 1 / 2, det_y = 1 / 2, det_w = 1 / 2, det_h = 3 / 5\<rparr>,
           \<lparr>det_angle = 30, det_x = 7 / 20, det_y = 7 / 20, det_w = 3 / 10, det_h = 2 / 5\<rparr>]
          \<lparr>det_angle = 30, det_x = 1 / 2, det_y = 1 / 2, det_w = 1 / 10, det_h = 1 / 5\<rparr>)
       = Inr (Some (3 / 10 * 141, 2 / 5 * 142))"
    using m by (subst draw_line_rotated [OF _ _ refl]) (simp_all add: a90)
  with proj d near show ?thesis by blast
qed

section \<open>Restriction of the angle\<close>

text \<open>
  C6.  For an angle in \<open>[0, 360)\<close>, \<open>restrict_angle180\<close> is the angle modulo 180,
  \<open>restrict_angle90\<close> folds it at 90 and \<open>restrict_angle45\<close> mirrors it at 45; angle 200
  gives 20, 20, 20 and angle 300 gives 120, 30, 30.
\<close>

theorem wedge_reduction:
  assumes "0 \<le> angle" "angle < 360"
  shows "restrict_angle180 angle = angle mod 180
       \<and> restrict_angle90 angle = (if angle mod 180 \<le> 90 then angle mod 180 else angle mod 180 - 90)
       \<and> restrict_angle45 angle =
           (if restrict_angle90 angle \<le> 45 then restrict_angle90 angle else 90 - restrict_angle90 angle)
       \<and> (restrict_angle180 200, restrict_angle90 200, restrict_angle45 200) = (20, 20, 20)
       \<and> (restrict_angle180 300, restrict_angle90 300, restrict_angle45 300) = (120, 30, 30)"
proof -
  have "restrict_angle180 angle = angle mod 180"
    using assms by (rule wedge_range(1))
  then show ?thesis
    by (simp add: restrict_angle90_def restrict_angle45_def) (simp add: restrict_angle180_def)
qed

theorem wedge_reduction_witness:
  "(0::int) \<le> 300 \<and> (300::int) < 360
   \<and> restrict_angle180 300 = 300 mod 180 \<and> restrict_angle180 300 = 120
   \<and> restrict_angle90 300 = 30 \<and> restrict_angle45 300 = 30"
  using wedge_reduction [of 300] by simp

section \<open>Width at most height\<close>

text \<open>
  C7.  For a label with angle in \<open>[0, 360)\<close> and non-negative extents, in an image of
  non-negative size, the iteration fails only when the rotated image has no labels, and
  otherwise \<open>w \<le> h\<close> after the swap and \<open>rw \<le> rh\<close> whenever a rotated box is computed, in
  the matched branch as in the trigonometric one.
\<close>

theorem width_le_height:
  assumes ang: "0 \<le> det_angle line" "det_angle line < 360"
    and ext: "0 \<le> det_w line" "0 \<le> det_h line"
    and shape: "0 \<le> shape0 img" "0 \<le> shape1 img"
  shows "case draw_line img r_img rlines line of
           Inl e \<Rightarrow> e = ValueError \<and> rlines = []
         | Inr r \<Rightarrow> lr_w r \<le> lr_h r
                  \<and> (case lr_extents r of None \<Rightarrow> True | Some (rw, rh) \<Rightarrow> rw \<le> rh)"
proof (cases "restrict_angle90 (det_angle line) = 0 \<or> restrict_angle90 (det_angle line) = 90")
  case True
  then show ?thesis
    by (simp add: draw_line_aligned axis_swap_min_max)
next
  case rot: False
  show ?thesis
  proof (cases "real_of_int (restrict_angle90 (det_angle line)) > 22.5
              \<and> real_of_int (restrict_angle90 (det_angle line)) < 67.5")
    case True
    with rot show ?thesis
      by (subst draw_line_rotated [OF _ _ refl])
         (auto simp: axis_swap_min_max split: sum.splits dest: matched_extents_cases)
  next
    case False
    define w where "w = min (det_w line * real_of_int (shape1 img)) (det_h line * real_of_int (shape0 img))"
    define h where "h = max (det_w line * real_of_int (shape1 img)) (det_h line * real_of_int (shape0 img))"
    define c where "c = cos (radians (real_of_int (restrict_angle45 (det_angle line))))"
    define s where "s = sin (radians (real_of_int (restrict_angle45 (det_angle line))))"
    have c: "0 < c" and s: "0 \<le> s"
      unfolding c_def s_def using wedge_range(4,5) [OF ang] by (rule trig_wedge(2,3))+
    have "0 \<le> det_h line * real_of_int (shape0 img)" using ext shape by simp
    then have h: "0 \<le> h" "w \<le> h" by (simp_all add: h_def w_def)
    have "w * c - h * s \<le> (h - (w * c - h * s) * s) / c"
      using h(2,1) c s by (rule deconvolution_order) (simp add: c_def s_def)
    moreover have "deconvolved_extents w h c s = (w * c - h * s, (h - (w * c - h * s) * s) / c)"
      by (rule deconvolved_extents_eq)
    ultimately show ?thesis
      using rot False h(2)
      by (subst draw_line_rotated [OF _ _ refl])
         (auto simp: axis_swap_min_max w_def [symmetric] h_def [symmetric] c_def [symmetric] s_def [symmetric])
  qed
qed

text \<open>
  A label wider than high (80 by 10 pixels) at angle 200.
\<close>

theorem width_le_height_witness:
  "\<exists>r. draw_line \<lparr>shape0 = 100, shape1 = 200\<rparr> \<lparr>shape0 = 212, shape1 = 212\<rparr> []
        \<lparr>det_angle = 200, det_x = 1 / 2, det_y = 1 / 2, det_w = 2 / 5, det_h = 1 / 10\<rparr> = Inr r
      \<and> lr_w r = 10 \<and> lr_h r = 80
      \<and> lr_extents r = Some (10 * cos (radians 20) - 80 * sin (radians 20),
            (80 - (10 * cos (radians 20) - 80 * sin (radians 20)) * sin (radians 20)) / cos (radians 20))
      \<and> 10 * cos (radians 20) - 80 * sin (radians 20)
          \<le> (80 - (10 * cos (radians 20) - 80 * sin (radians 20)) * sin (radians 20)) / cos (radians 20)"
proof -
  have "0 < cos (radians (real_of_int 20))"
    by (rule trig_wedge(2)) simp_all
  then have c: "cos (radians 20) \<noteq> 0" by simp
  have d: "draw_line \<lparr>shape0 = 100, shape1 = 200\<rparr> \<lparr>shape0 = 212, shape1 = 212\<rparr> []
        \<lparr>det_angle = 200, det_x = 1 / 2, det_y = 1 / 2, det_w = 2 / 5, det_h = 1 / 10\<rparr>
     = Inr \<lparr>lr_w = 10, lr_h = 80, lr_box = (60, 140, 45, 55),
          lr_extents = Some (10 * cos (radians 20) - 80 * sin (radians 20),
            (80 - (10 * cos (radians 20) - 80 * sin (radians 20)) * sin (radians 20)) / cos (radians 20)),
          lr_corners = Some (corners (10 * cos (radians 20) - 80 * sin (radians 20))
            ((80 - (10 * cos (radians 20) - 80 * sin (radians 20)) * sin (radians 20)) / cos (radians 20))
            200 100 50)\<rparr>"
    using c
    by (subst draw_line_rotated [OF _ _ refl])
       (simp_all add: restrict_angle45_def restrict_angle90_def restrict_angle180_def
          axis_swap_def upright_box_def py_int_def deconvolved_extents_eq)
  show ?thesis
    using width_le_height [where line = "\<lparr>det_angle = 200, det_x = 1 / 2, det_y = 1 / 2, det_w = 2 / 5, det_h = 1 / 10\<rparr>"
        and img = "\<lparr>shape0 = 100, shape1 = 200\<rparr>" and r_img = "\<lparr>shape0 = 212, shape1 = 212\<rparr>"
        and rlines = "[]"]
    by (simp add: d)
qed

section \<open>Size of the rotated image and projection of a point\<close>

text \<open>
  C8, as the code has it.  With \<open>R = int((W + H) cos \<theta>)\<close>, truncated toward zero,
  \<open>rotate_point\<close> returns the truncations of
  \<open>x' = (x - W/2) cos \<theta> + (y - H/2) sin \<theta> + W/2 + (R - W)/2\<close> and
  \<open>y' = - (x - W/2) sin \<theta> + (y - H/2) cos \<theta> + H/2 + (R - H)/2\<close>; at 45 degrees \<open>R\<close> is the
  side that \<open>create_rotated45_img\<close> gives the rotated image; and when
  \<open>(W + H) cos \<theta>\<close> is not negative, \<open>R\<close> is its integer part.
\<close>

theorem rotate_point_projection:
  assumes R: "R = py_int (real_of_int (W + H) * cos (radians \<theta>))"
  shows "rotate_point x y W H \<theta> =
           (py_int ((x - real_of_int W / 2) * cos (radians \<theta>) + (y - real_of_int H / 2) * sin (radians \<theta>)
                      + real_of_int W / 2 + real_of_int (R - W) / 2),
            py_int (- (x - real_of_int W / 2) * sin (radians \<theta>) + (y - real_of_int H / 2) * cos (radians \<theta>)
                      + real_of_int H / 2 + real_of_int (R - H) / 2))
       \<and> (\<theta> = 45 \<longrightarrow> rotated45_side W H = R)
       \<and> (0 \<le> real_of_int (W + H) * cos (radians \<theta>) \<longrightarrow>
            real_of_int R \<le> real_of_int (W + H) * cos (radians \<theta>)
            \<and> real_of_int (W + H) * cos (radians \<theta>) < real_of_int R + 1)"
proof (intro conjI impI)
  show "rotate_point x y W H \<theta> =
           (py_int ((x - real_of_int W / 2) * cos (radians \<theta>) + (y - real_of_int H / 2) * sin (radians \<theta>)
                      + real_of_int W / 2 + real_of_int (R - W) / 2),
            py_int (- (x - real_of_int W / 2) * sin (radians \<theta>) + (y - real_of_int H / 2) * cos (radians \<theta>)
                      + real_of_int H / 2 + real_of_int (R - H) / 2))"
    unfolding R by (simp add: rotate_point_def Let_def algebra_simps)
  show "rotated45_side W H = R" if "\<theta> = 45"
    unfolding R using that by (simp add: rotated45_side_def)
  assume "0 \<le> real_of_int (W + H) * cos (radians \<theta>)"
  then have "R = \<lfloor>real_of_int (W + H) * cos (radians \<theta>)\<rfloor>"
    unfolding R by (rule py_int_nonneg)
  then show "real_of_int R \<le> real_of_int (W + H) * cos (radians \<theta>)"
    "real_of_int (W + H) * cos (radians \<theta>) < real_of_int R + 1"
    by linarith+
qed

theorem rotate_point_projection_witness:
  "rotate_point 50 50 100 100 45 = (py_int (141 / 2), py_int (141 / 2))
   \<and> rotated45_side 100 100 = 141
   \<and> 141 \<le> real_of_int (100 + 100) * cos (radians 45)
   \<and> real_of_int (100 + 100) * cos (radians 45) < 142"
proof -
  have "0 \<le> real_of_int (100 + 100) * cos (radians 45)"
    by (simp add: cos_radians_45)
  then show ?thesis
    using rotate_point_projection [OF side_200 [symmetric], of 50 50] by simp
qed

text \<open>
  C8, as stated, fails: for a 50 by 50 image the side is 70 where rounding
  \<open>100 cos 45 = 70.71...\<close> (45 in degrees) gives 71, and for a 100 by 100 image the centre is sent to
  (70, 70) where the formula with a rounded side gives 70.5.
\<close>

theorem rotated_side_not_rounded:
  "rotated45_side 50 50 = 70
   \<and> round (real_of_int (50 + 50) * cos (radians 45)) = 71
   \<and> rotate_point 50 50 100 100 45 = (70, 70)
   \<and> (50 - 100 / 2) * cos (radians 45) + (50 - 100 / 2) * sin (radians 45) + 100 / 2
        + (real_of_int (round (real_of_int (100 + 100) * cos (radians 45))) - 100) / 2 = 141 / 2"
proof -
  have "rotated45_side 50 50 = 70"
    using side_100 by (simp add: rotated45_side_def)
  moreover have "round (real_of_int (100 + 100) * cos (radians 45)) = 141"
  proof -
    have "round (200 * (sqrt 2 / 2)) = (141::int)"
      using sqrt2_bounds(1) sqrt2_upper by (intro round_unique) simp_all
    then show ?thesis by (simp add: cos_radians_45)
  qed
  ultimately show ?thesis
    using round_100 rotate_point_centre by simp
qed

section \<open>The divisor of the trigonometric branch\<close>

text \<open>No iteration fails except on an empty list of labels of the rotated image.\<close>

lemma draw_line_failure:
  assumes "draw_line img r_img rlines line = Inl e"
  shows "e = ValueError \<and> rlines = []"
proof (cases "restrict_angle90 (det_angle line) = 0 \<or> restrict_angle90 (det_angle line) = 90")
  case True
  with assms show ?thesis by (simp add: draw_line_aligned)
next
  case False
  then have "draw_line img r_img rlines line =
     (case (if real_of_int (restrict_angle90 (det_angle line)) > 22.5
            \<and> real_of_int (restrict_angle90 (det_angle line)) < 67.5
          then matched_extents (det_x line * real_of_int (shape1 img)) (det_y line * real_of_int (shape0 img))
                 img r_img rlines
          else Inr (deconvolved_extents
                 (fst (axis_swap (det_w line * real_of_int (shape1 img)) (det_h line * real_of_int (shape0 img))))
                 (snd (axis_swap (det_w line * real_of_int (shape1 img)) (det_h line * real_of_int (shape0 img))))
                 (cos (radians (real_of_int (restrict_angle45 (det_angle line)))))
                 (sin (radians (real_of_int (restrict_angle45 (det_angle line))))))) of
        Inl e \<Rightarrow> Inl e
      | Inr (rw, rh) \<Rightarrow>
         Inr \<lparr>lr_w = fst (axis_swap (det_w line * real_of_int (shape1 img)) (det_h line * real_of_int (shape0 img))),
              lr_h = snd (axis_swap (det_w line * real_of_int (shape1 img)) (det_h line * real_of_int (shape0 img))),
              lr_box = upright_box (det_x line * real_of_int (shape1 img)) (det_y line * real_of_int (shape0 img))
                     (det_w line * real_of_int (shape1 img)) (det_h line * real_of_int (shape0 img)),
              lr_extents = Some (rw, rh),
              lr_corners = Some (corners rw rh (det_angle line)
                 (det_x line * real_of_int (shape1 img)) (det_y line * real_of_int (shape0 img)))\<rparr>)"
    by (intro draw_line_rotated [OF _ _ refl]) simp_all
  with assms show ?thesis
    by (auto split: if_splits sum.splits prod.splits dest: matched_extents_cases(1))
qed

text \<open>
  C9, as the code has it.  For a label with angle in \<open>[0, 360)\<close> the angle restricted to
  45 degrees lies in \<open>[0, 45]\<close>, so its cosine \<open>c\<close> is at least the cosine of 45 degrees, which
  is positive; and outside the zone \<open>22.5 < a90 < 67.5\<close> the iteration returns the extents
  \<open>rw = w c - h s\<close> and \<open>rh = (h - rw s) / c\<close>: the division is carried out as written, with no
  test on the divisor and no failure.
\<close>

theorem deconvolution_divisor_positive:
  assumes ang: "0 \<le> det_angle line" "det_angle line < 360"
    and a90: "a90 = restrict_angle90 (det_angle line)"
    and c: "c = cos (radians (real_of_int (restrict_angle45 (det_angle line))))"
    and s: "s = sin (radians (real_of_int (restrict_angle45 (det_angle line))))"
    and wh: "w = min (det_w line * real_of_int (shape1 img)) (det_h line * real_of_int (shape0 img))"
            "h = max (det_w line * real_of_int (shape1 img)) (det_h line * real_of_int (shape0 img))"
  shows "0 \<le> restrict_angle45 (det_angle line) \<and> restrict_angle45 (det_angle line) \<le> 45
       \<and> cos (radians 45) \<le> c \<and> 0 < cos (radians 45)
       \<and> (a90 \<noteq> 0 \<and> a90 \<noteq> 90 \<and> \<not> (22.5 < real_of_int a90 \<and> real_of_int a90 < 67.5) \<longrightarrow>
            (\<exists>r. draw_line img r_img rlines line = Inr r
               \<and> lr_extents r = Some (w * c - h * s, (h - (w * c - h * s) * s) / c)))"
proof -
  note rng = wedge_range(4,5) [OF ang]
  have "cos (radians 45) \<le> c"
    unfolding c using rng by (rule trig_wedge(1))
  moreover have "0 < cos (radians 45)" by (simp add: cos_radians_45)
  moreover have "\<exists>r. draw_line img r_img rlines line = Inr r
               \<and> lr_extents r = Some (w * c - h * s, (h - (w * c - h * s) * s) / c)"
    if "a90 \<noteq> 0 \<and> a90 \<noteq> 90 \<and> \<not> (22.5 < real_of_int a90 \<and> real_of_int a90 < 67.5)"
    using that unfolding a90 c s wh
    by (subst draw_line_rotated [OF _ _ refl])
       (auto simp: axis_swap_min_max deconvolved_extents_eq)
  ultimately show ?thesis using rng by blast
qed

text \<open>A label 20 by 40 pixels at angle 200, restricted to 20 degrees.\<close>

theorem deconvolution_divisor_positive_witness:
  "(0::int) \<le> 200 \<and> (200::int) < 360
   \<and> restrict_angle45 200 = 20
   \<and> cos (radians 45) \<le> cos (radians 20) \<and> 0 < cos (radians 45)
   \<and> map_sum id lr_extents
       (draw_line \<lparr>shape0 = 100, shape1 = 200\<rparr> \<lparr>shape0 = 212, shape1 = 212\<rparr> []
          \<lparr>det_angle = 200, det_x = 1 / 2, det_y = 1 / 2, det_w = 1 / 10, det_h = 2 / 5\<rparr>)
     = Inr (Some (20 * cos (radians 20) - 40 * sin (radians 20),
                  (40 - (20 * cos (radians 20) - 40 * sin (radians 20)) * sin (radians 20)) / cos (radians 20)))"
proof -
  have a: "restrict_angle45 200 = 20" "restrict_angle90 200 = 20"
    by (simp_all add: restrict_angle45_def restrict_angle90_def restrict_angle180_def)
  have "0 \<le> restrict_angle45 200 \<and> restrict_angle45 200 \<le> 45
       \<and> cos (radians 45) \<le> cos (radians (real_of_int (restrict_angle45 200))) \<and> 0 < cos (radians 45)
       \<and> (restrict_angle90 200 \<noteq> 0 \<and> restrict_angle90 200 \<noteq> 90
            \<and> \<not> (22.5 < real_of_int (restrict_angle90 200) \<and> real_of_int (restrict_angle90 200) < 67.5) \<longrightarrow>
            (\<exists>r. draw_line \<lparr>shape0 = 100, shape1 = 200\<rparr> \<lparr>shape0 = 212, shape1 = 212\<rparr> []
                    \<lparr>det_angle = 200, det_x = 1 / 2, det_y = 1 / 2, det_w = 1 / 10, det_h = 2 / 5\<rparr> = Inr r
               \<and> lr_extents r =
                   Some (20 * cos (radians (real_of_int (restrict_angle45 200)))
                           - 40 * sin (radians (real_of_int (restrict_angle45 200))),
                         (40 - (20 * cos (radians (real_of_int (restrict_angle45 200)))
                                 - 40 * sin (radians (real_of_int (restrict_angle45 200))))
                               * sin (radians (real_of_int (restrict_angle45 200))))
                           / cos (radians (real_of_int (restrict_angle45 200))))))"
    using deconvolution_divisor_positive [where line = "\<lparr>det_angle = 200, det_x = 1 / 2, det_y = 1 / 2, det_w = 1 / 10, det_h = 2 / 5\<rparr>"
        and img = "\<lparr>shape0 = 100, shape1 = 200\<rparr>" and r_img = "\<lparr>shape0 = 212, shape1 = 212\<rparr>"
        and rlines = "[]", OF _ _ refl refl refl refl refl]
    by simp
  then show ?thesis
    unfolding a by auto
qed

text \<open>
  C9, as stated, fails.  No input makes the iteration fail except an empty list of labels
  of the rotated image, so no failure guards the division.  Nor does the restriction keep
  every angle that the parser accepts within \<open>[0, 45]\<close>: the label angle 450 is restricted
  to 180 and then to -90, where the cosine is below \<open>1e-16\<close> in absolute value (0 as a real
  number, about \<open>6.1e-17\<close> as a float), and lines 161-162 still produce extents.
\<close>

theorem deconvolution_unguarded:
  "restrict_angle90 450 = 180 \<and> restrict_angle45 450 = - 90
   \<and> \<bar>cos (radians (real_of_int (restrict_angle45 450)))\<bar> < 1 / 10 ^ 16
   \<and> (\<exists>r. draw_line \<lparr>shape0 = 100, shape1 = 100\<rparr> \<lparr>shape0 = 141, shape1 = 141\<rparr> []
           \<lparr>det_angle = 450, det_x = 1 / 2, det_y = 1 / 2, det_w = 1 / 10, det_h = 1 / 5\<rparr> = Inr r)
   \<and> \<not> (\<exists>img r_img rlines line e.
           draw_line img r_img rlines line = Inl e \<and> (e \<noteq> ValueError \<or> rlines \<noteq> []))"
proof -
  have a: "restrict_angle90 450 = 180" "restrict_angle45 450 = - 90"
    by (simp_all add: restrict_angle45_def restrict_angle90_def restrict_angle180_def)
  have c: "\<bar>cos (radians (real_of_int (- 90)))\<bar> < 1 / 10 ^ 16"
    by (simp add: radians_def)
  have d: "\<exists>r. draw_line \<lparr>shape0 = 100, shape1 = 100\<rparr> \<lparr>shape0 = 141, shape1 = 141\<rparr> []
           \<lparr>det_angle = 450, det_x = 1 / 2, det_y = 1 / 2, det_w = 1 / 10, det_h = 1 / 5\<rparr> = Inr r"
    by (subst draw_line_rotated [OF _ _ refl]) (auto simp: a split: prod.splits)
  have "\<not> (\<exists>img r_img rlines line e.
           draw_line img r_img rlines line = Inl e \<and> (e \<noteq> ValueError \<or> rlines \<noteq> []))"
    using draw_line_failure by blast
  with a c d show ?thesis by simp
qed

section \<open>No labels in the rotated image\<close>

text \<open>
  C10.  On an empty list of labels \<open>check_neareat_coord\<close> raises (the \<open>ValueError\<close> of
  \<open>min\<close> on an empty list), and so does the loop iteration that calls it, for a label
  with \<open>22.5 < a90 < 67.5\<close>: nothing catches the exception and no extents are produced.
\<close>

theorem empty_candidates_raise:
  "check_neareat_coord rx ry r_img [] = Inl ValueError
   \<and> matched_extents x y img r_img [] = Inl ValueError
   \<and> (22.5 < real_of_int (restrict_angle90 (det_angle line))
        \<and> real_of_int (restrict_angle90 (det_angle line)) < 67.5 \<longrightarrow>
      draw_line img r_img [] line = Inl ValueError)"
proof (intro conjI impI)
  show "check_neareat_coord rx ry r_img [] = Inl ValueError"
    by (rule check_neareat_coord_empty)
  show m: "matched_extents x y img r_img [] = Inl ValueError" for x y
    by (simp add: matched_extents_eq check_neareat_coord_empty)
  assume amb: "22.5 < real_of_int (restrict_angle90 (det_angle line))
        \<and> real_of_int (restrict_angle90 (det_angle line)) < 67.5"
  then have "restrict_angle90 (det_angle line) \<noteq> 0" "restrict_angle90 (det_angle line) \<noteq> 90"
    by auto
  then show "draw_line img r_img [] line = Inl ValueError"
    using amb by (subst draw_line_rotated [OF _ _ refl]) (simp_all add: m)
qed

theorem empty_candidates_raise_witness:
  "22.5 < real_of_int (restrict_angle90 30) \<and> real_of_int (restrict_angle90 30) < 67.5
   \<and> check_neareat_coord 50 50 \<lparr>shape0 = 141, shape1 = 141\<rparr> [] = Inl ValueError
   \<and> draw_line \<lparr>shape0 = 100, shape1 = 100\<rparr> \<lparr>shape0 = 141, shape1 = 141\<rparr> []
        \<lparr>det_angle = 30, det_x = 1 / 2, det_y = 1 / 2, det_w = 1 / 10, det_h = 1 / 5\<rparr>
      = Inl ValueError"
proof -
  have "restrict_angle90 30 = 30"
    by (simp add: restrict_angle90_def restrict_angle180_def)
  then show ?thesis
    using empty_candidates_raise [where rx = 50 and ry = 50 and r_img = "\<lparr>shape0 = 141, shape1 = 141\<rparr>"
        and img = "\<lparr>shape0 = 100, shape1 = 100\<rparr>"
        and line = "\<lparr>det_angle = 30, det_x = 1 / 2, det_y = 1 / 2, det_w = 1 / 10, det_h = 1 / 5\<rparr>"]
    by simp
qed

end
